theory Spec2Isabelle
  imports Main "HOL-Library.Sublist"
begin

section \<open>Entity model (types.ts)\<close>

text \<open>
  The enums of \<^verbatim>\<open>types.ts\<close> are datatypes and its interfaces are records. The
  fields \<^verbatim>\<open>id\<close>, \<^verbatim>\<open>name\<close> and \<^verbatim>\<open>type\<close> occur in several interfaces and clash
  with constants of HOL, so each carries the suffix of its interface. The literal union
  \<^verbatim>\<open>'CRITICAL' | 'WARNING'\<close> of \<^verbatim>\<open>Rule.severity\<close> is the datatype \<open>Severity\<close>.
\<close>

datatype EntityType = CONTAINER | SERVICE

datatype ValidationStatus = VALIDATED | UNCERTAIN | CONFLICT

datatype RuleStatus = SATISFIED | VIOLATED | NOT_EVALUABLE

datatype ServiceType = DATABASE | API | QUEUE | AUTH

datatype Severity = CRITICAL | WARNING

record Rule =
  id_rule :: string
  description :: string
  severity :: Severity
  matcher :: string

record EvaluatedRule = Rule +
  status :: RuleStatus
  matchingServices :: "string list"

record ExternalService =
  id_svc :: string
  name_svc :: string
  type_svc :: ServiceType
  contractMetrics :: "string list"
  isExperimental :: bool
  evaluationStatus :: ValidationStatus

record ContainerVersion =
  id_cont :: string
  versionLabel :: string
  hypothesis :: string
  activeRules :: "Rule list"

record Arrangement =
  id_arr :: string
  name_arr :: string
  container :: ContainerVersion
  services :: "ExternalService list"
  parentId :: "string option"
  createdAt :: nat

section \<open>Strings\<close>

text \<open>
  A string is a list of code units below 256, the first 256 code points of Unicode
  (Basic Latin and Latin-1 Supplement); a string with any other code unit is outside the
  model. On these strings \<^verbatim>\<open>String.prototype.toLowerCase\<close> works code unit by code
  unit and keeps the length: it adds 32 to the code units of A to Z (65 to 90) and of
  the capital letters of Latin-1 (192 to 222, the multiplication sign 215 apart), and
  leaves every other code unit as it is. \<^verbatim>\<open>s.includes(p)\<close> holds when \<open>p\<close> occurs
  as a contiguous run of \<open>s\<close>, scanning the start positions from the left.
\<close>

definition toLowerCase_char :: "char \<Rightarrow> char" where
  "toLowerCase_char c =
     (let n = (of_char c :: nat)
      in if (65 \<le> n \<and> n \<le> 90) \<or> (192 \<le> n \<and> n \<le> 214) \<or> (216 \<le> n \<and> n \<le> 222)
         then char_of (n + 32) else c)"

definition toLowerCase :: "string \<Rightarrow> string" where
  "toLowerCase s = map toLowerCase_char s"

fun includes_str :: "string \<Rightarrow> string \<Rightarrow> bool" where
  "includes_str [] p = (p = [])"
| "includes_str (c # cs) p = (prefix p (c # cs) \<or> includes_str cs p)"

text \<open>
  The template literals of \<^verbatim>\<open>handleFork\<close> print a clock reading in decimal, without
  leading zeros; \<^verbatim>\<open>Date.now()\<close> is a count of milliseconds, a natural number.
\<close>

fun toString_nat :: "nat \<Rightarrow> string" where
  "toString_nat n =
     (if n < 10 then [''0123456789'' ! n]
      else toString_nat (n div 10) @ [''0123456789'' ! (n mod 10)])"

declare toString_nat.simps [simp del]

section \<open>Rule evaluation engine (App.tsx)\<close>

text \<open>
  \<^verbatim>\<open>relevantServices\<close> is the first local constant of \<^verbatim>\<open>evaluateRule\<close>:
  \<^verbatim>\<open>services.filter(s => s.contractMetrics.some(metric =>
     metric.toLowerCase().includes(rule.matcher.toLowerCase())))\<close>.
\<close>

definition relevantServices :: "Rule \<Rightarrow> ExternalService list \<Rightarrow> ExternalService list" where
  "relevantServices rule svcs =
     filter (\<lambda>s. list_ex (\<lambda>metric. includes_str (toLowerCase metric) (toLowerCase (matcher rule)))
                           (contractMetrics s)) svcs"

definition evaluateRule :: "Rule \<Rightarrow> ExternalService list \<Rightarrow> EvaluatedRule" where
  "evaluateRule rule svcs =
     (let relevant = relevantServices rule svcs;
          st = (if length relevant = 0
                then (if severity rule = CRITICAL then VIOLATED else NOT_EVALUABLE)
                else (let hasConflict = list_ex (\<lambda>s. evaluationStatus s = CONFLICT) relevant;
                          hasUncertainty = list_ex (\<lambda>s. evaluationStatus s = UNCERTAIN) relevant
                      in if hasConflict then VIOLATED
                         else if hasUncertainty then NOT_EVALUABLE
                         else SATISFIED))
      in \<lparr> id_rule = id_rule rule, description = description rule,
           severity = severity rule, matcher = matcher rule,
           status = st, matchingServices = map name_svc relevant \<rparr>)"

definition getEvaluatedRules :: "Arrangement \<Rightarrow> EvaluatedRule list" where
  "getEvaluatedRules arrangement =
     map (\<lambda>rule. evaluateRule rule (services arrangement)) (activeRules (container arrangement))"

text \<open>
  The wording of the specification, for comparison with \<open>relevantServices\<close>: a metric
  contains the matcher as a case-insensitive substring when some contiguous run of the
  metric agrees with the matcher character by character up to letter case. Two
  characters agree up to letter case when they are equal or are the capital and the
  small form of one letter. The letters are listed, capital first: the 26 of the
  alphabet, then those of Latin-1, from A with grave (192, 224) to thorn (222, 254). This
  says nothing of \<open>toLowerCase_char\<close>.
\<close>

definition letter_pairs :: "(char \<times> char) list" where
  "letter_pairs =
     zip ''ABCDEFGHIJKLMNOPQRSTUVWXYZ'' ''abcdefghijklmnopqrstuvwxyz'' @
     [
       (CHR 0xC0, CHR 0xE0), (CHR 0xC1, CHR 0xE1), (CHR 0xC2, CHR 0xE2), (CHR 0xC3, CHR 0xE3),
       (CHR 0xC4, CHR 0xE4), (CHR 0xC5, CHR 0xE5), (CHR 0xC6, CHR 0xE6), (CHR 0xC7, CHR 0xE7),
       (CHR 0xC8, CHR 0xE8), (CHR 0xC9, CHR 0xE9), (CHR 0xCA, CHR 0xEA), (CHR 0xCB, CHR 0xEB),
       (CHR 0xCC, CHR 0xEC), (CHR 0xCD, CHR 0xED), (CHR 0xCE, CHR 0xEE), (CHR 0xCF, CHR 0xEF),
       (CHR 0xD0, CHR 0xF0), (CHR 0xD1, CHR 0xF1), (CHR 0xD2, CHR 0xF2), (CHR 0xD3, CHR 0xF3),
       (CHR 0xD4, CHR 0xF4), (CHR 0xD5, CHR 0xF5), (CHR 0xD6, CHR 0xF6), (CHR 0xD8, CHR 0xF8),
       (CHR 0xD9, CHR 0xF9), (CHR 0xDA, CHR 0xFA), (CHR 0xDB, CHR 0xFB), (CHR 0xDC, CHR 0xFC),
       (CHR 0xDD, CHR 0xFD), (CHR 0xDE, CHR 0xFE) ]"





section \<open>Version graph manager (the handlers of App.tsx)\<close>

text \<open>
  The handlers close over the state of the component. The part of it they read or write
  is the collection of arrangements, the id of the active one and the selected entity.
  Each handler is a function from that state to the next one. No handler writes into
  an object or an array it did not build itself, so values stand for the objects.

  \<^verbatim>\<open>activeArrangement\<close> is \<^verbatim>\<open>arrangements.find(a => a.id === activeArrangementId)!\<close>:
  the first arrangement with the active id, \<^verbatim>\<open>undefined\<close> when there is none (the
  \<^verbatim>\<open>!\<close> is erased by the compiler).
\<close>

datatype error = TypeError

record AppState =
  arrangements :: "Arrangement list"
  activeArrangementId :: string
  selectedEntity :: "(EntityType \<times> string) option"

definition activeArrangement :: "AppState \<Rightarrow> Arrangement option" where
  "activeArrangement st = find (\<lambda>a. id_arr a = activeArrangementId st) (arrangements st)"

text \<open>The object spread \<^verbatim>\<open>{...s}\<close> of a service: a new object with the same fields.\<close>

definition spread_service :: "ExternalService \<Rightarrow> ExternalService" where
  "spread_service s =
     \<lparr> id_svc = id_svc s, name_svc = name_svc s, type_svc = type_svc s,
       contractMetrics = contractMetrics s, isExperimental = isExperimental s,
       evaluationStatus = evaluationStatus s \<rparr>"

text \<open>
  \<^verbatim>\<open>handleFork\<close> reads the clock three times: for the id of the fork, for the id of its
  container and for \<^verbatim>\<open>createdAt\<close>. The three readings are arguments. \<open>fork\<close> is the
  object literal of the handler. Reading \<^verbatim>\<open>activeArrangement.name\<close> when there is no
  active arrangement throws a TypeError, before any state is set.
\<close>

definition fork :: "Arrangement \<Rightarrow> nat \<Rightarrow> nat \<Rightarrow> nat \<Rightarrow> Arrangement" where
  "fork act now1 now2 now3 =
     act \<lparr> id_arr := ''arr-'' @ toString_nat now1,
           name_arr := name_arr act @ '' (Fork)'',
           services := map (\<lambda>s. spread_service s) (services act),
           container := (container act)
             \<lparr> id_cont := ''cont-'' @ toString_nat now2,
               versionLabel := versionLabel (container act) @ ''.1'',
               hypothesis := ''Exploratory fork to test new boundary conditions.'' \<rparr>,
           parentId := Some (id_arr act),
           createdAt := now3 \<rparr>"

definition handleFork :: "AppState \<Rightarrow> nat \<Rightarrow> nat \<Rightarrow> nat \<Rightarrow> error + AppState" where
  "handleFork st now1 now2 now3 =
     (case activeArrangement st of
        None \<Rightarrow> Inl TypeError
      | Some act \<Rightarrow>
          (let newId = ''arr-'' @ toString_nat now1
           in Inr (st \<lparr> arrangements := arrangements st @ [fork act now1 now2 now3],
                        activeArrangementId := newId \<rparr>)))"

text \<open>
  \<^verbatim>\<open>handleToggleService\<close> looks the template up in \<^verbatim>\<open>MOCK_SERVICES\<close>; the catalog is
  an argument here and the handler is the instance at \<^verbatim>\<open>MOCK_SERVICES\<close>. \<open>toggleIn\<close>
  is the arrow function the handler maps over the collection, with the catalog and the
  active id it captures as arguments. Removing a service that is the selected entity
  clears the selection.
\<close>

definition toggleIn ::
  "ExternalService list \<Rightarrow> string \<Rightarrow> string \<Rightarrow> Arrangement \<Rightarrow> Arrangement" where
  "toggleIn catalog active serviceId arr =
     (if id_arr arr \<noteq> active then arr
      else (case find (\<lambda>s. id_svc s = serviceId) (services arr) of
              Some exists \<Rightarrow>
                arr \<lparr> services := filter (\<lambda>s. id_svc s \<noteq> serviceId) (services arr) \<rparr>
            | None \<Rightarrow>
                (case find (\<lambda>s. id_svc s = serviceId) catalog of
                   None \<Rightarrow> arr
                 | Some svcTemplate \<Rightarrow>
                     arr \<lparr> services := services arr @ [spread_service svcTemplate] \<rparr>)))"

definition handleToggleService_with ::
  "ExternalService list \<Rightarrow> AppState \<Rightarrow> string \<Rightarrow> AppState" where
  "handleToggleService_with catalog st serviceId =
     st \<lparr> arrangements :=
            map (toggleIn catalog (activeArrangementId st) serviceId) (arrangements st),
          selectedEntity :=
            (if list_ex (\<lambda>arr. id_arr arr = activeArrangementId st
                              \<and> find (\<lambda>s. id_svc s = serviceId) (services arr) \<noteq> None)
                        (arrangements st)
                \<and> (case selectedEntity st of None \<Rightarrow> False | Some (t, i) \<Rightarrow> i = serviceId)
             then None else selectedEntity st) \<rparr>"

text \<open>
  \<open>hypothesisIn\<close> and \<open>cycleIn\<close> are the arrow functions that \<^verbatim>\<open>handleUpdateHypothesis\<close>
  and \<^verbatim>\<open>handleCycleStatus\<close> map over the collection, with the active id they capture as
  an argument; \<open>cycleService\<close> is the one mapped over the services of the active
  arrangement. The cycle has VALIDATED as its default, with two tests before it.
\<close>

definition hypothesisIn :: "string \<Rightarrow> string \<Rightarrow> Arrangement \<Rightarrow> Arrangement" where
  "hypothesisIn active text arr =
     (if id_arr arr \<noteq> active then arr
      else arr \<lparr> container := (container arr) \<lparr> hypothesis := text \<rparr> \<rparr>)"

definition handleUpdateHypothesis :: "AppState \<Rightarrow> string \<Rightarrow> AppState" where
  "handleUpdateHypothesis st text =
     st \<lparr> arrangements := map (hypothesisIn (activeArrangementId st) text) (arrangements st) \<rparr>"

definition nextStatus :: "ValidationStatus \<Rightarrow> ValidationStatus" where
  "nextStatus current =
     (if current = VALIDATED then CONFLICT
      else if current = CONFLICT then UNCERTAIN
      else VALIDATED)"

definition cycleService :: "string \<Rightarrow> ExternalService \<Rightarrow> ExternalService" where
  "cycleService serviceId s =
     (if id_svc s \<noteq> serviceId then s
      else s \<lparr> evaluationStatus := nextStatus (evaluationStatus s) \<rparr>)"

definition cycleIn :: "string \<Rightarrow> string \<Rightarrow> Arrangement \<Rightarrow> Arrangement" where
  "cycleIn active serviceId arr =
     (if id_arr arr \<noteq> active then arr
      else arr \<lparr> services := map (cycleService serviceId) (services arr) \<rparr>)"

definition handleCycleStatus :: "AppState \<Rightarrow> string \<Rightarrow> AppState" where
  "handleCycleStatus st serviceId =
     st \<lparr> arrangements := map (cycleIn (activeArrangementId st) serviceId) (arrangements st) \<rparr>"

section \<open>Comparison engine (components/ComparisonView.tsx)\<close>

text \<open>
  The component computes the three lists of \<^verbatim>\<open>getServiceDiff\<close> and the two lists of
  evaluated rules from its properties \<^verbatim>\<open>arrangementA\<close> and \<^verbatim>\<open>arrangementB\<close>, the
  second of which may be \<^verbatim>\<open>null\<close>. A \<^verbatim>\<open>Set\<close> of ids is a set of strings.
\<close>

record ServiceDiff =
  uniqueA :: "ExternalService list"
  uniqueB :: "ExternalService list"
  common :: "ExternalService list"

definition getServiceDiff :: "Arrangement \<Rightarrow> Arrangement option \<Rightarrow> ServiceDiff" where
  "getServiceDiff arrangementA arrangementB =
     (case arrangementB of
        None \<Rightarrow> \<lparr> uniqueA = [], uniqueB = [], common = [] \<rparr>
      | Some b \<Rightarrow>
          (let setA = set (map id_svc (services arrangementA));
               setB = set (map id_svc (services b))
           in \<lparr> uniqueA = filter (\<lambda>s. id_svc s \<notin> setB) (services arrangementA),
                uniqueB = filter (\<lambda>s. id_svc s \<notin> setA) (services b),
                common = filter (\<lambda>s. id_svc s \<in> setB) (services arrangementA) \<rparr>))"

definition rulesA :: "Arrangement \<Rightarrow> EvaluatedRule list" where
  "rulesA arrangementA =
     map (\<lambda>r. evaluateRule r (services arrangementA)) (activeRules (container arrangementA))"

definition rulesB :: "Arrangement option \<Rightarrow> EvaluatedRule list" where
  "rulesB arrangementB =
     (case arrangementB of
        None \<Rightarrow> []
      | Some b \<Rightarrow> map (\<lambda>r. evaluateRule r (services b)) (activeRules (container b)))"

text \<open>What the component derives from its two properties, as one value.\<close>

definition ComparisonView ::
  "Arrangement \<Rightarrow> Arrangement option \<Rightarrow> ServiceDiff \<times> EvaluatedRule list \<times> EvaluatedRule list" where
  "ComparisonView arrangementA arrangementB =
     (getServiceDiff arrangementA arrangementB, rulesA arrangementA, rulesB arrangementB)"

section \<open>Seed data (constants.ts)\<close>

definition MOCK_SERVICES :: "ExternalService list" where
  "MOCK_SERVICES =
     [ \<lparr> id_svc = ''svc-onprem-db'', name_svc = ''Legacy SQL Cluster (On-Prem)'',
         type_svc = DATABASE,
         contractMetrics = [''High OpEx Maintenance'', ''99.5% Uptime'', ''Local Compliance Control''],
         isExperimental = False, evaluationStatus = VALIDATED \<rparr>,
       \<lparr> id_svc = ''svc-onprem-backup'', name_svc = ''Tape/Local Backup System'',
         type_svc = DATABASE,
         contractMetrics = [''DR RTO 48h'', ''Manual Restore Process'', ''CapEx Heavy''],
         isExperimental = False, evaluationStatus = VALIDATED \<rparr>,
       \<lparr> id_svc = ''svc-onprem-analytics'', name_svc = ''Legacy Reporting Server'',
         type_svc = API,
         contractMetrics = [''Batch Processing (Overnight)'', ''Limited Scale''],
         isExperimental = False, evaluationStatus = VALIDATED \<rparr>,
       \<lparr> id_svc = ''cloud_storage_HIPAA'', name_svc = ''Cloud Storage (HIPAA/HITRUST)'',
         type_svc = DATABASE,
         contractMetrics = [''Cost Reduced 45%'', ''Encryption at Rest'', ''Audit Logging'',
                            ''Infinite Scale''],
         isExperimental = False, evaluationStatus = VALIDATED \<rparr>,
       \<lparr> id_svc = ''cloud_analytics_platform'', name_svc = ''Cloud Analytics Platform'',
         type_svc = API,
         contractMetrics = [''Performance 10x Increase'', ''Predictive Insights'',
                            ''Real-time Processing''],
         isExperimental = False, evaluationStatus = VALIDATED \<rparr>,
       \<lparr> id_svc = ''cloud_backup_DR'', name_svc = ''Cloud DR & Failover'',
         type_svc = QUEUE,
         contractMetrics = [''DR RTO 30min'', ''Auto-Failover'', ''99.99% Availability''],
         isExperimental = False, evaluationStatus = VALIDATED \<rparr>,
       \<lparr> id_svc = ''human_consistency_review'', name_svc = ''Clinical Consistency Review'',
         type_svc = AUTH,
         contractMetrics = [''Manual Validation Required'', ''Cognitive Load: High'',
                            ''Risk: Human Error''],
         isExperimental = False, evaluationStatus = UNCERTAIN \<rparr> ]"

definition handleToggleService :: "AppState \<Rightarrow> string \<Rightarrow> AppState" where
  "handleToggleService st serviceId = handleToggleService_with MOCK_SERVICES st serviceId"

definition MIGRATION_DRIVERS :: "Rule list" where
  "MIGRATION_DRIVERS =
     [ \<lparr> id_rule = ''r_cost'', description = ''Infrastructure Cost Efficiency'',
         severity = WARNING, matcher = ''Cost'' \<rparr>,
       \<lparr> id_rule = ''r_dr'', description = ''Disaster Recovery Standards'',
         severity = CRITICAL, matcher = ''DR'' \<rparr>,
       \<lparr> id_rule = ''r_perf'', description = ''Analytics Performance'',
         severity = WARNING, matcher = ''Performance'' \<rparr>,
       \<lparr> id_rule = ''r_comp'', description = ''Regulatory Compliance (HIPAA)'',
         severity = CRITICAL, matcher = ''Compliance'' \<rparr>,
       \<lparr> id_rule = ''r_valid'', description = ''Clinical Data Integrity'',
         severity = CRITICAL, matcher = ''Validation'' \<rparr> ]"

definition CONT_LEGACY :: ContainerVersion where
  "CONT_LEGACY =
     \<lparr> id_cont = ''container_legacy_hospital_on_prem'',
       versionLabel = ''v1.0-Legacy-Baseline'',
       hypothesis = ''Traditional infrastructure offers maximum control but suffers from high costs (OpEx) and slow disaster recovery (48h).'',
       activeRules = filter (\<lambda>r. id_rule r \<noteq> ''r_perf'') MIGRATION_DRIVERS \<rparr>"

definition CONT_CLOUD :: ContainerVersion where
  "CONT_CLOUD =
     \<lparr> id_cont = ''container_healthcare_cloud_case0'',
       versionLabel = ''v2.0-Cloud-Migration'',
       hypothesis = ''Migrating to HIPAA-compliant cloud reduces TCO by 45%, improves DR to 30min, and boosts analytics 10x.'',
       activeRules = MIGRATION_DRIVERS \<rparr>"

text \<open>\<^verbatim>\<open>INITIAL_ARRANGEMENTS\<close> reads the clock once per arrangement, when the module loads.\<close>

definition INITIAL_ARRANGEMENTS :: "nat \<Rightarrow> nat \<Rightarrow> Arrangement list" where
  "INITIAL_ARRANGEMENTS now1 now2 =
     [ \<lparr> id_arr = ''arr-legacy'', name_arr = ''Legacy On-Premise'',
         container = CONT_LEGACY,
         services = [ spread_service (MOCK_SERVICES ! 0),
                      spread_service (MOCK_SERVICES ! 1),
                      spread_service (MOCK_SERVICES ! 2) ],
         parentId = None, createdAt = now1 \<rparr>,
       \<lparr> id_arr = ''arr-cloud'', name_arr = ''Cloud Migration (HIPAA)'',
         container = CONT_CLOUD,
         services = [ spread_service (MOCK_SERVICES ! 3),
                      spread_service (MOCK_SERVICES ! 4),
                      spread_service (MOCK_SERVICES ! 5),
                      (spread_service (MOCK_SERVICES ! 6)) \<lparr> evaluationStatus := CONFLICT \<rparr> ],
         parentId = Some ''arr-legacy'', createdAt = now2 + 1000 \<rparr> ]"

text \<open>The state of the component when it is mounted: the first arrangement is active.\<close>

definition initialState :: "nat \<Rightarrow> nat \<Rightarrow> AppState" where
  "initialState now1 now2 =
     \<lparr> arrangements = INITIAL_ARRANGEMENTS now1 now2,
       activeArrangementId = id_arr (INITIAL_ARRANGEMENTS now1 now2 ! 0),
       selectedEntity = None \<rparr>"

section \<open>Example inputs\<close>

text \<open>
  Service sequences built from the seed data, on which the theorems below are
  instantiated: one with the three evaluation states and a service without metrics, one
  with metrics that spell the same word in different letter cases, the last of them with
  a small e with acute (233).
\<close>

definition mixed_services :: "ExternalService list" where
  "mixed_services =
     [ MOCK_SERVICES ! 1,
       (MOCK_SERVICES ! 5) \<lparr> evaluationStatus := CONFLICT \<rparr>,
       MOCK_SERVICES ! 6,
       (MOCK_SERVICES ! 0) \<lparr> contractMetrics := [''Fire drill''], evaluationStatus := UNCERTAIN \<rparr>,
       (MOCK_SERVICES ! 2) \<lparr> contractMetrics := [] \<rparr> ]"


text \<open>
  The component with an active id that no arrangement carries; and the component after
  one and after two forks taken at the same reading of the clock.
\<close>

definition stale_state :: AppState where
  "stale_state = (initialState 0 0) \<lparr> activeArrangementId := ''arr-removed'' \<rparr>"

definition once_forked :: AppState where
  "once_forked = projr (handleFork (initialState 0 0) 41 41 41)"

definition twice_forked :: AppState where
  "twice_forked = projr (handleFork once_forked 41 41 41)"

section \<open>Reading a decimal numeral back\<close>

text \<open>The left inverse of \<open>toString_nat\<close>; it serves the proofs only.\<close>

definition digit_of :: "char \<Rightarrow> nat" where
  "digit_of c = (case map_of (zip ''0123456789'' [0..<10]) c of None \<Rightarrow> 0 | Some d \<Rightarrow> d)"

definition parse_nat :: "string \<Rightarrow> nat" where
  "parse_nat s = foldl (\<lambda>acc c. 10 * acc + digit_of c) 0 s"

section \<open>Substring matching\<close>




text \<open>
  Lower-casing identifies exactly the characters that agree up to letter case: each
  listed capital goes to its small form, which stays; every unlisted character stays;
  and no two capitals share a small form.
\<close>

lemma pairs_lowered:
  "list_all (\<lambda>(u, l). toLowerCase_char u = l \<and> toLowerCase_char l = l) letter_pairs"
  by code_simp

lemma others_fixed:
  "list_all (\<lambda>c. c \<in> set (map fst letter_pairs) \<or> toLowerCase_char c = c) Enum.enum"
  by code_simp


lemma toLowerCase_char_pair:
  assumes "(u, l) \<in> set letter_pairs"
  shows "toLowerCase_char u = l" and "toLowerCase_char l = l"
  using pairs_lowered assms by (auto simp: list_all_iff)

lemma toLowerCase_char_other:
  assumes "c \<notin> set (map fst letter_pairs)"
  shows "toLowerCase_char c = c"
proof -
  have "c \<in> set Enum.enum" by (simp add: UNIV_enum [symmetric])
  with others_fixed assms show ?thesis by (auto simp: list_all_iff)
qed



text \<open>The same function read off the list of letters, as the equation to compute with.\<close>

lemma toLowerCase_char_table [code]:
  "toLowerCase_char c = (case map_of letter_pairs c of None \<Rightarrow> c | Some l \<Rightarrow> l)"
proof (cases "map_of letter_pairs c")
  case None
  then have "c \<notin> set (map fst letter_pairs)"
    by (simp add: map_of_eq_None_iff)
  with None show ?thesis
    by (simp add: toLowerCase_char_other)
next
  case (Some l)
  then have "(c, l) \<in> set letter_pairs"
    by (rule map_of_SomeD)
  with Some show ?thesis
    by (simp add: toLowerCase_char_pair)
qed



lemma includes_str_Nil: "includes_str s []"
  by (cases s) simp_all

lemma toLowerCase_Nil: "toLowerCase [] = []"
  by (simp add: toLowerCase_def)

lemma relevant_iff:
  "s \<in> set (relevantServices rule svcs) \<longleftrightarrow>
     s \<in> set svcs \<and> (\<exists>metric \<in> set (contractMetrics s).
        includes_str (toLowerCase metric) (toLowerCase (matcher rule)))"
  by (auto simp: relevantServices_def list_ex_iff)

lemma relevant_Nil_iff:
  "relevantServices rule svcs = [] \<longleftrightarrow>
     (\<forall>s \<in> set svcs. \<forall>metric \<in> set (contractMetrics s).
        \<not> includes_str (toLowerCase metric) (toLowerCase (matcher rule)))"
  by (auto simp: relevantServices_def list_ex_iff filter_empty_conv)

lemma list_ex_True: "list_ex (\<lambda>x. True) xs \<longleftrightarrow> xs \<noteq> []"
  by (cases xs) simp_all

section \<open>Verdicts of the rule evaluation engine\<close>

lemma status_evaluateRule:
  "status (evaluateRule rule svcs) =
     (if relevantServices rule svcs = []
      then (if severity rule = CRITICAL then VIOLATED else NOT_EVALUABLE)
      else if list_ex (\<lambda>s. evaluationStatus s = CONFLICT) (relevantServices rule svcs) then VIOLATED
      else if list_ex (\<lambda>s. evaluationStatus s = UNCERTAIN) (relevantServices rule svcs)
      then NOT_EVALUABLE
      else SATISFIED)"
  by (simp add: evaluateRule_def Let_def)

lemma only_VALIDATED_left:
  assumes "\<not> list_ex (\<lambda>s. evaluationStatus s = CONFLICT) xs"
    and "\<not> list_ex (\<lambda>s. evaluationStatus s = UNCERTAIN) xs"
  shows "list_all (\<lambda>s. evaluationStatus s = VALIDATED) xs"
proof -
  have "evaluationStatus s = VALIDATED" if "s \<in> set xs" for s
  proof (cases "evaluationStatus s")
    case VALIDATED
    then show ?thesis .
  next
    case UNCERTAIN
    with that assms(2) show ?thesis by (auto simp: list_ex_iff)
  next
    case CONFLICT
    with that assms(1) show ?thesis by (auto simp: list_ex_iff)
  qed
  then show ?thesis by (simp add: list_all_iff)
qed

text \<open>
  C1. When at least one service is relevant to the rule, the verdict follows the
  precedence of the evaluation states of the relevant services: VIOLATED if one of them
  is in CONFLICT; otherwise NOT_EVALUABLE if one of them is UNCERTAIN; otherwise
  SATISFIED, and in that last case every relevant service is VALIDATED.
\<close>

theorem evaluateRule_precedence:
  assumes "relevantServices rule svcs \<noteq> []"
  shows "status (evaluateRule rule svcs) =
           (if (\<exists>s \<in> set (relevantServices rule svcs). evaluationStatus s = CONFLICT)
            then VIOLATED
            else if (\<exists>s \<in> set (relevantServices rule svcs). evaluationStatus s = UNCERTAIN)
            then NOT_EVALUABLE
            else SATISFIED)
         \<and> (status (evaluateRule rule svcs) = SATISFIED \<longleftrightarrow>
              (\<forall>s \<in> set (relevantServices rule svcs). evaluationStatus s = VALIDATED))"
proof -
  let ?rel = "relevantServices rule svcs"
  have verdict: "status (evaluateRule rule svcs) =
           (if (\<exists>s \<in> set ?rel. evaluationStatus s = CONFLICT) then VIOLATED
            else if (\<exists>s \<in> set ?rel. evaluationStatus s = UNCERTAIN) then NOT_EVALUABLE
            else SATISFIED)"
    using assms by (simp add: status_evaluateRule list_ex_iff)
  have "status (evaluateRule rule svcs) = SATISFIED \<longleftrightarrow>
           (\<forall>s \<in> set ?rel. evaluationStatus s = VALIDATED)"
  proof
    assume "status (evaluateRule rule svcs) = SATISFIED"
    with verdict have "\<not> list_ex (\<lambda>s. evaluationStatus s = CONFLICT) ?rel"
      and "\<not> list_ex (\<lambda>s. evaluationStatus s = UNCERTAIN) ?rel"
      by (auto simp: list_ex_iff split: if_splits)
    then have "list_all (\<lambda>s. evaluationStatus s = VALIDATED) ?rel"
      by (rule only_VALIDATED_left)
    then show "\<forall>s \<in> set ?rel. evaluationStatus s = VALIDATED"
      by (simp add: list_all_iff)
  next
    assume "\<forall>s \<in> set ?rel. evaluationStatus s = VALIDATED"
    then show "status (evaluateRule rule svcs) = SATISFIED"
      by (auto simp: verdict)
  qed
  with verdict show ?thesis by blast
qed

text \<open>
  The verdict of the disaster-recovery rule on a sequence holding a VALIDATED, a CONFLICT
  and an UNCERTAIN provider is VIOLATED; on the VALIDATED provider alone it is
  SATISFIED.
\<close>

theorem evaluateRule_precedence_witness:
  "relevantServices (MIGRATION_DRIVERS ! 1) mixed_services \<noteq> []
   \<and> status (evaluateRule (MIGRATION_DRIVERS ! 1) mixed_services) = VIOLATED
   \<and> relevantServices (MIGRATION_DRIVERS ! 1) (take 1 mixed_services) \<noteq> []
   \<and> status (evaluateRule (MIGRATION_DRIVERS ! 1) (take 1 mixed_services)) = SATISFIED"
proof -
  let ?r = "MIGRATION_DRIVERS ! 1"
  have h: "relevantServices ?r mixed_services \<noteq> []"
    by code_simp
  have c: "\<exists>s \<in> set (relevantServices ?r mixed_services). evaluationStatus s = CONFLICT"
    by code_simp
  have h1: "relevantServices ?r (take 1 mixed_services) \<noteq> []"
    by code_simp
  have v: "\<forall>s \<in> set (relevantServices ?r (take 1 mixed_services)). evaluationStatus s = VALIDATED"
    by code_simp
  from evaluateRule_precedence [OF h] c
  have "status (evaluateRule ?r mixed_services) = VIOLATED" by simp
  moreover from evaluateRule_precedence [OF h1] v
  have "status (evaluateRule ?r (take 1 mixed_services)) = SATISFIED" by blast
  ultimately show ?thesis using h h1 by blast
qed

text \<open>
  C2. When no service is relevant to the rule, that is, no contract metric of any service
  contains the matcher, the verdict is VIOLATED for a CRITICAL rule and NOT_EVALUABLE for
  a WARNING rule, and no service is reported; this covers the empty service sequence.
\<close>

theorem evaluateRule_no_relevant:
  assumes "\<not> (\<exists>s \<in> set svcs. \<exists>metric \<in> set (contractMetrics s).
               includes_str (toLowerCase metric) (toLowerCase (matcher rule)))"
  shows "status (evaluateRule rule svcs) =
           (case severity rule of CRITICAL \<Rightarrow> VIOLATED | WARNING \<Rightarrow> NOT_EVALUABLE)
         \<and> matchingServices (evaluateRule rule svcs) = []
         \<and> status (evaluateRule rule []) =
           (case severity rule of CRITICAL \<Rightarrow> VIOLATED | WARNING \<Rightarrow> NOT_EVALUABLE)"
proof -
  from assms have none: "relevantServices rule svcs = []"
    by (simp add: relevant_Nil_iff)
  have empty: "relevantServices rule [] = []"
    by (simp add: relevantServices_def)
  have "status (evaluateRule rule svcs) =
          (case severity rule of CRITICAL \<Rightarrow> VIOLATED | WARNING \<Rightarrow> NOT_EVALUABLE)"
    using none by (cases "severity rule") (simp_all add: status_evaluateRule)
  moreover have "matchingServices (evaluateRule rule svcs) = []"
    using none by (simp add: evaluateRule_def Let_def)
  moreover have "status (evaluateRule rule []) =
          (case severity rule of CRITICAL \<Rightarrow> VIOLATED | WARNING \<Rightarrow> NOT_EVALUABLE)"
    using empty by (cases "severity rule") (simp_all add: status_evaluateRule)
  ultimately show ?thesis by blast
qed

text \<open>
  On the legacy arrangement of the seed data no metric mentions validation or
  performance: the CRITICAL rule is VIOLATED, the WARNING rule NOT_EVALUABLE.
\<close>

theorem evaluateRule_no_relevant_witness:
  "\<not> (\<exists>s \<in> set (services (INITIAL_ARRANGEMENTS 0 0 ! 0)). \<exists>metric \<in> set (contractMetrics s).
       includes_str (toLowerCase metric) (toLowerCase (matcher (MIGRATION_DRIVERS ! 4))))
   \<and> status (evaluateRule (MIGRATION_DRIVERS ! 4) (services (INITIAL_ARRANGEMENTS 0 0 ! 0))) = VIOLATED
   \<and> \<not> (\<exists>s \<in> set (services (INITIAL_ARRANGEMENTS 0 0 ! 0)). \<exists>metric \<in> set (contractMetrics s).
       includes_str (toLowerCase metric) (toLowerCase (matcher (MIGRATION_DRIVERS ! 2))))
   \<and> status (evaluateRule (MIGRATION_DRIVERS ! 2) (services (INITIAL_ARRANGEMENTS 0 0 ! 0))) = NOT_EVALUABLE
   \<and> status (evaluateRule (MIGRATION_DRIVERS ! 1) []) = VIOLATED"
proof -
  let ?svcs = "services (INITIAL_ARRANGEMENTS 0 0 ! 0)"
  have h4: "\<not> (\<exists>s \<in> set ?svcs. \<exists>metric \<in> set (contractMetrics s).
       includes_str (toLowerCase metric) (toLowerCase (matcher (MIGRATION_DRIVERS ! 4))))"
    by code_simp
  have h2: "\<not> (\<exists>s \<in> set ?svcs. \<exists>metric \<in> set (contractMetrics s).
       includes_str (toLowerCase metric) (toLowerCase (matcher (MIGRATION_DRIVERS ! 2))))"
    by code_simp
  have s4: "severity (MIGRATION_DRIVERS ! 4) = CRITICAL" by code_simp
  have s2: "severity (MIGRATION_DRIVERS ! 2) = WARNING" by code_simp
  have s1: "severity (MIGRATION_DRIVERS ! 1) = CRITICAL" by code_simp
  from evaluateRule_no_relevant [OF h4] s4
  have a: "status (evaluateRule (MIGRATION_DRIVERS ! 4) ?svcs) = VIOLATED" by simp
  from evaluateRule_no_relevant [OF h2] s2
  have b: "status (evaluateRule (MIGRATION_DRIVERS ! 2) ?svcs) = NOT_EVALUABLE" by simp
  from evaluateRule_no_relevant [of "[]" "MIGRATION_DRIVERS ! 1"] s1
  have c: "status (evaluateRule (MIGRATION_DRIVERS ! 1) []) = VIOLATED" by simp
  from a b c h4 h2 show ?thesis by blast
qed

section \<open>Relevance and the reported services\<close>



text \<open>
  C10. With the empty string as matcher the relevant services are exactly those whose
  sequence of contract metrics is not empty; a service without contract metrics is
  relevant for no matcher.
\<close>

theorem empty_matcher_relevant:
  "(matcher rule = [] \<longrightarrow>
      relevantServices rule svcs = filter (\<lambda>s. contractMetrics s \<noteq> []) svcs)
   \<and> (contractMetrics s = [] \<longrightarrow> s \<notin> set (relevantServices rule svcs))"
proof -
  have "relevantServices rule svcs = filter (\<lambda>s. contractMetrics s \<noteq> []) svcs"
    if "matcher rule = []"
    unfolding relevantServices_def
    by (rule filter_cong) (simp_all add: that toLowerCase_Nil includes_str_Nil list_ex_True)
  moreover have "s \<notin> set (relevantServices rule svcs)" if "contractMetrics s = []"
    using that by (simp add: relevant_iff)
  ultimately show ?thesis by blast
qed

theorem empty_matcher_relevant_witness:
  "matcher \<lparr> id_rule = ''r_any'', description = ''Any capability'', severity = WARNING,
             matcher = [] \<rparr> = []
   \<and> map id_svc (relevantServices \<lparr> id_rule = ''r_any'', description = ''Any capability'',
                                      severity = WARNING, matcher = [] \<rparr> mixed_services)
     = [''svc-onprem-backup'', ''cloud_backup_DR'', ''human_consistency_review'', ''svc-onprem-db'']
   \<and> contractMetrics (mixed_services ! 4) = []
   \<and> mixed_services ! 4 \<notin> set (relevantServices (MIGRATION_DRIVERS ! 1) mixed_services)"
proof -
  let ?r = "\<lparr> id_rule = ''r_any'', description = ''Any capability'', severity = WARNING,
             matcher = [] \<rparr>"
  have m: "matcher ?r = []" by simp
  have e: "contractMetrics (mixed_services ! 4) = []" by code_simp
  have f: "map id_svc (filter (\<lambda>s. contractMetrics s \<noteq> []) mixed_services)
     = [''svc-onprem-backup'', ''cloud_backup_DR'', ''human_consistency_review'', ''svc-onprem-db'']"
    by code_simp
  from empty_matcher_relevant [where rule = ?r and svcs = mixed_services] m f
  have "map id_svc (relevantServices ?r mixed_services)
     = [''svc-onprem-backup'', ''cloud_backup_DR'', ''human_consistency_review'', ''svc-onprem-db'']"
    by simp
  moreover from empty_matcher_relevant [where s = "mixed_services ! 4" and rule = "MIGRATION_DRIVERS ! 1"
      and svcs = mixed_services] e
  have "mixed_services ! 4 \<notin> set (relevantServices (MIGRATION_DRIVERS ! 1) mixed_services)"
    by blast
  ultimately show ?thesis using m e by blast
qed

section \<open>The status cycle\<close>

lemma map_single_update:
  assumes "i < length xs" and "\<And>k. k < length xs \<Longrightarrow> k \<noteq> i \<Longrightarrow> f (xs ! k) = xs ! k"
  shows "map f xs = xs[i := f (xs ! i)]"
proof (rule nth_equalityI)
  show "length (map f xs) = length (xs[i := f (xs ! i)])" by simp
next
  fix k assume "k < length (map f xs)"
  then have k: "k < length xs" by simp
  show "map f xs ! k = xs[i := f (xs ! i)] ! k"
  proof (cases "k = i")
    case True
    with k show ?thesis by simp
  next
    case False
    with k assms(2) show ?thesis by simp
  qed
qed

lemma distinct_map_nth_neq:
  assumes "distinct (map f xs)" and "i < length xs" and "k < length xs" and "k \<noteq> i"
  shows "f (xs ! k) \<noteq> f (xs ! i)"
proof -
  from assms(1) have "\<forall>a<length xs. \<forall>b<length xs. a \<noteq> b \<longrightarrow> f (xs ! a) \<noteq> f (xs ! b)"
    by (simp add: distinct_conv_nth)
  with assms(2-4) show ?thesis by blast
qed

lemma nextStatus_cases:
  "nextStatus VALIDATED = CONFLICT" "nextStatus CONFLICT = UNCERTAIN" "nextStatus UNCERTAIN = VALIDATED"
  by (simp_all add: nextStatus_def)

lemma nextStatus_thrice: "nextStatus (nextStatus (nextStatus v)) = v"
  by (cases v) (simp_all add: nextStatus_cases)

lemma nextStatus_neq: "nextStatus v \<noteq> v"
  by (cases v) (simp_all add: nextStatus_cases)

lemma arrangements_handleCycleStatus:
  "arrangements (handleCycleStatus st serviceId) =
     map (\<lambda>arr. if id_arr arr \<noteq> activeArrangementId st then arr
                else arr \<lparr> services := map (cycleService serviceId) (services arr) \<rparr>)
         (arrangements st)"
  by (simp add: handleCycleStatus_def cycleIn_def [abs_def])

lemma other_fields_handleCycleStatus:
  "activeArrangementId (handleCycleStatus st serviceId) = activeArrangementId st"
  "selectedEntity (handleCycleStatus st serviceId) = selectedEntity st"
  by (simp_all add: handleCycleStatus_def)

lemma cycleService_thrice: "cycleService sid (cycleService sid (cycleService sid s)) = s"
  by (simp add: cycleService_def nextStatus_thrice)

lemma handleCycleStatus_thrice:
  "handleCycleStatus (handleCycleStatus (handleCycleStatus st sid) sid) sid = st"
proof -
  have "arrangements (handleCycleStatus (handleCycleStatus (handleCycleStatus st sid) sid) sid)
        = arrangements st"
    by (simp add: arrangements_handleCycleStatus other_fields_handleCycleStatus o_def
        cycleService_thrice if_distrib [of "\<lambda>a. id_arr a"] cong: if_cong)
  then show ?thesis
    by (simp add: handleCycleStatus_def)
qed

lemma handleCycleStatus_single_update:
  assumes "distinct (map id_arr (arrangements st))"
    and "i < length (arrangements st)"
    and "id_arr (arrangements st ! i) = activeArrangementId st"
    and "distinct (map id_svc (services (arrangements st ! i)))"
    and "j < length (services (arrangements st ! i))"
    and "id_svc (services (arrangements st ! i) ! j) = serviceId"
  shows "handleCycleStatus st serviceId =
           st \<lparr> arrangements := (arrangements st)
                [i := (arrangements st ! i)
                   \<lparr> services := (services (arrangements st ! i))
                      [j := (services (arrangements st ! i) ! j)
                         \<lparr> evaluationStatus :=
                             nextStatus (evaluationStatus (services (arrangements st ! i) ! j)) \<rparr>] \<rparr>] \<rparr>"
proof -
  let ?arrs = "arrangements st"
  let ?a = "?arrs ! i"
  let ?s = "services ?a ! j"
  let ?f = "\<lambda>arr. if id_arr arr \<noteq> activeArrangementId st then arr
                else arr \<lparr> services := map (cycleService serviceId) (services arr) \<rparr>"
  have svcs: "map (cycleService serviceId) (services ?a)
        = (services ?a)[j := ?s \<lparr> evaluationStatus := nextStatus (evaluationStatus ?s) \<rparr>]"
  proof -
    have "cycleService serviceId (services ?a ! k) = services ?a ! k"
      if "k < length (services ?a)" and "k \<noteq> j" for k
      using distinct_map_nth_neq [OF assms(4) assms(5) that] assms(6)
      by (simp add: cycleService_def)
    then have "map (cycleService serviceId) (services ?a)
        = (services ?a)[j := cycleService serviceId ?s]"
      using assms(5) by (intro map_single_update) simp_all
    then show ?thesis using assms(6) by (simp add: cycleService_def)
  qed
  have "?f (?arrs ! k) = ?arrs ! k" if "k < length ?arrs" and "k \<noteq> i" for k
    using distinct_map_nth_neq [OF assms(1) assms(2) that] assms(3) by simp
  then have "map ?f ?arrs = ?arrs[i := ?f ?a]"
    using assms(2) by (intro map_single_update) simp_all
  then have "arrangements (handleCycleStatus st serviceId)
      = ?arrs[i := ?a \<lparr> services := (services ?a)
               [j := ?s \<lparr> evaluationStatus := nextStatus (evaluationStatus ?s) \<rparr>] \<rparr>]"
    using assms(3) svcs by (simp add: arrangements_handleCycleStatus)
  then show ?thesis
    by (simp add: handleCycleStatus_def)
qed

text \<open>
  The cycle is VALIDATED to CONFLICT to UNCERTAIN to VALIDATED: every step changes the
  state and stays within the three states, three steps give the state back, and so
  three applications of the handler give the collection back. In a collection whose
  arrangement ids are distinct, cycling a service that the active arrangement holds
  under a unique id rewrites that one service of that one arrangement and nothing
  else.
\<close>

lemma cycle_status_closure:
  "nextStatus VALIDATED = CONFLICT \<and> nextStatus CONFLICT = UNCERTAIN
   \<and> nextStatus UNCERTAIN = VALIDATED
   \<and> nextStatus v \<noteq> v
   \<and> nextStatus (nextStatus (nextStatus v)) = v
   \<and> handleCycleStatus (handleCycleStatus (handleCycleStatus st serviceId) serviceId) serviceId
       = st
   \<and> (distinct (map id_arr (arrangements st))
        \<and> i < length (arrangements st)
        \<and> id_arr (arrangements st ! i) = activeArrangementId st
        \<and> distinct (map id_svc (services (arrangements st ! i)))
        \<and> j < length (services (arrangements st ! i))
        \<and> id_svc (services (arrangements st ! i) ! j) = serviceId
      \<longrightarrow> handleCycleStatus st serviceId =
            st \<lparr> arrangements := (arrangements st)
                 [i := (arrangements st ! i)
                    \<lparr> services := (services (arrangements st ! i))
                       [j := (services (arrangements st ! i) ! j)
                          \<lparr> evaluationStatus :=
                              nextStatus (evaluationStatus (services (arrangements st ! i) ! j)) \<rparr>] \<rparr>] \<rparr>)"
  using handleCycleStatus_single_update [of st i j serviceId]
  by (intro conjI impI)
    (simp_all only: nextStatus_cases nextStatus_neq nextStatus_thrice handleCycleStatus_thrice
      not_False_eq_True)

section \<open>Toggling a service\<close>

lemma find_None_ids:
  "find (\<lambda>s. id_svc s = sid) xs = None \<longleftrightarrow> sid \<notin> set (map id_svc xs)"
  by (auto simp: find_None_iff)

lemma find_Some_ids:
  "find (\<lambda>s. id_svc s = sid) xs = Some t \<Longrightarrow> id_svc t = sid \<and> t \<in> set xs"
  by (auto simp: find_Some_iff)

lemma spread_service_id: "spread_service s = s"
  by (simp add: spread_service_def)

lemma arrangements_handleToggleService:
  "arrangements (handleToggleService_with catalog st sid) =
     map (toggleIn catalog (activeArrangementId st) sid) (arrangements st)"
  by (simp add: handleToggleService_with_def)

lemma toggleIn_other: "id_arr a \<noteq> active \<Longrightarrow> toggleIn catalog active sid a = a"
  by (simp add: toggleIn_def)

lemma toggleIn_present:
  assumes "id_arr a = active" and "sid \<in> set (map id_svc (services a))"
  shows "toggleIn catalog active sid a = a \<lparr> services := filter (\<lambda>s. id_svc s \<noteq> sid) (services a) \<rparr>"
proof -
  from assms(2) have "find (\<lambda>s. id_svc s = sid) (services a) \<noteq> None"
    by (simp add: find_None_ids)
  then obtain e where "find (\<lambda>s. id_svc s = sid) (services a) = Some e" by blast
  with assms(1) show ?thesis by (simp add: toggleIn_def)
qed

lemma toggleIn_add:
  assumes "id_arr a = active" and "sid \<notin> set (map id_svc (services a))"
    and "find (\<lambda>s. id_svc s = sid) catalog = Some t"
  shows "toggleIn catalog active sid a = a \<lparr> services := services a @ [t] \<rparr>"
proof -
  from assms(2) have "find (\<lambda>s. id_svc s = sid) (services a) = None"
    by (simp add: find_None_ids)
  with assms(1,3) show ?thesis by (simp add: toggleIn_def spread_service_id)
qed

lemma toggleIn_unknown:
  assumes "sid \<notin> set (map id_svc (services a))" and "sid \<notin> set (map id_svc catalog)"
  shows "toggleIn catalog active sid a = a"
proof -
  from assms have "find (\<lambda>s. id_svc s = sid) (services a) = None"
    and "find (\<lambda>s. id_svc s = sid) catalog = None"
    by (simp_all add: find_None_ids)
  then show ?thesis by (simp add: toggleIn_def)
qed

text \<open>
  Toggling a service removes it from an arrangement with the active id when a service
  with that id is present there; when it is absent, appends the first catalog entry
  with that id; leaves the arrangement as it is when neither the arrangement nor the
  catalog has the id; and every arrangement with another id stays as it is.
\<close>

lemma toggleService_cases:
  assumes "i < length (arrangements st)"
  shows "length (arrangements (handleToggleService_with catalog st serviceId))
           = length (arrangements st)
     \<and> activeArrangementId (handleToggleService_with catalog st serviceId) = activeArrangementId st
     \<and> (id_arr (arrangements st ! i) \<noteq> activeArrangementId st \<longrightarrow>
          arrangements (handleToggleService_with catalog st serviceId) ! i = arrangements st ! i)
     \<and> (id_arr (arrangements st ! i) = activeArrangementId st
          \<and> serviceId \<in> set (map id_svc (services (arrangements st ! i))) \<longrightarrow>
          arrangements (handleToggleService_with catalog st serviceId) ! i
            = (arrangements st ! i)
                \<lparr> services := filter (\<lambda>s. id_svc s \<noteq> serviceId) (services (arrangements st ! i)) \<rparr>
          \<and> serviceId \<notin> set (map id_svc
                (services (arrangements (handleToggleService_with catalog st serviceId) ! i))))
     \<and> (id_arr (arrangements st ! i) = activeArrangementId st
          \<and> serviceId \<notin> set (map id_svc (services (arrangements st ! i)))
          \<and> find (\<lambda>s. id_svc s = serviceId) catalog = Some template \<longrightarrow>
          arrangements (handleToggleService_with catalog st serviceId) ! i
            = (arrangements st ! i) \<lparr> services := services (arrangements st ! i) @ [template] \<rparr>
          \<and> id_svc template = serviceId \<and> template \<in> set catalog)
     \<and> (serviceId \<notin> set (map id_svc (services (arrangements st ! i)))
          \<and> serviceId \<notin> set (map id_svc catalog) \<longrightarrow>
          arrangements (handleToggleService_with catalog st serviceId) ! i = arrangements st ! i)"
proof -
  let ?a = "arrangements st ! i"
  let ?st' = "handleToggleService_with catalog st serviceId"
  have nth: "arrangements ?st' ! i = toggleIn catalog (activeArrangementId st) serviceId ?a"
    using assms by (simp add: arrangements_handleToggleService)
  have len: "length (arrangements ?st') = length (arrangements st)"
    by (simp add: arrangements_handleToggleService)
  have act: "activeArrangementId ?st' = activeArrangementId st"
    by (simp add: handleToggleService_with_def)
  have other: "arrangements ?st' ! i = ?a" if "id_arr ?a \<noteq> activeArrangementId st"
    using that by (simp add: nth toggleIn_other)
  have present: "arrangements ?st' ! i
            = ?a \<lparr> services := filter (\<lambda>s. id_svc s \<noteq> serviceId) (services ?a) \<rparr>
          \<and> serviceId \<notin> set (map id_svc (services (arrangements ?st' ! i)))"
    if "id_arr ?a = activeArrangementId st" and "serviceId \<in> set (map id_svc (services ?a))"
    using toggleIn_present [OF that, of catalog] by (auto simp: nth)
  have add: "arrangements ?st' ! i = ?a \<lparr> services := services ?a @ [template] \<rparr>
          \<and> id_svc template = serviceId \<and> template \<in> set catalog"
    if "id_arr ?a = activeArrangementId st" and "serviceId \<notin> set (map id_svc (services ?a))"
      and "find (\<lambda>s. id_svc s = serviceId) catalog = Some template"
    using toggleIn_add [OF that] find_Some_ids [OF that(3)] by (simp add: nth)
  have unknown: "arrangements ?st' ! i = ?a"
    if "serviceId \<notin> set (map id_svc (services ?a))" and "serviceId \<notin> set (map id_svc catalog)"
    using toggleIn_unknown [OF that] by (simp add: nth)
  from len act other present add unknown show ?thesis by blast
qed

section \<open>Forking\<close>

text \<open>
  The decimal rendering of a clock reading is read back by \<open>parse_nat\<close>, so two
  readings are rendered alike only when they are equal.
\<close>

lemma digit_of_table: "d < 10 \<Longrightarrow> digit_of (''0123456789'' ! d) = d"
proof -
  have "\<forall>d \<in> set [0..<10]. digit_of (''0123456789'' ! d) = d"
    by code_simp
  then show "d < 10 \<Longrightarrow> digit_of (''0123456789'' ! d) = d"
    by simp
qed

lemma parse_nat_snoc: "parse_nat (s @ [c]) = 10 * parse_nat s + digit_of c"
  by (simp add: parse_nat_def)

lemma parse_nat_toString_nat: "parse_nat (toString_nat n) = n"
proof (induction n rule: toString_nat.induct)
  case (1 n)
  show ?case
  proof (cases "n < 10")
    case True
    then have "toString_nat n = [''0123456789'' ! n]"
      by (subst toString_nat.simps) simp
    with True show ?thesis
      by (simp add: parse_nat_def digit_of_table)
  next
    case False
    then have "toString_nat n = toString_nat (n div 10) @ [''0123456789'' ! (n mod 10)]"
      by (subst toString_nat.simps) simp
    with False "1.IH" show ?thesis
      by (simp add: parse_nat_snoc digit_of_table)
  qed
qed

lemma toString_nat_inj: "toString_nat a = toString_nat b \<longleftrightarrow> a = b"
  by (metis parse_nat_toString_nat)

lemma fork_fields:
  "id_arr (fork src now1 now2 now3) = ''arr-'' @ toString_nat now1"
  "name_arr (fork src now1 now2 now3) = name_arr src @ '' (Fork)''"
  "services (fork src now1 now2 now3) = services src"
  "container (fork src now1 now2 now3) =
     (container src) \<lparr> id_cont := ''cont-'' @ toString_nat now2,
                       versionLabel := versionLabel (container src) @ ''.1'',
                       hypothesis := ''Exploratory fork to test new boundary conditions.'' \<rparr>"
  "parentId (fork src now1 now2 now3) = Some (id_arr src)"
  "createdAt (fork src now1 now2 now3) = now3"
  by (simp_all add: fork_def spread_service_id)

lemma handleFork_Some:
  "activeArrangement st = Some src \<Longrightarrow>
   handleFork st now1 now2 now3 =
     Inr (st \<lparr> arrangements := arrangements st @ [fork src now1 now2 now3],
               activeArrangementId := ''arr-'' @ toString_nat now1 \<rparr>)"
  by (simp add: handleFork_def)

lemma handleFork_None:
  "activeArrangement st = None \<Longrightarrow> handleFork st now1 now2 now3 = Inl TypeError"
  by (simp add: handleFork_def)

lemma activeArrangement_None_iff:
  "activeArrangement st = None \<longleftrightarrow> activeArrangementId st \<notin> set (map id_arr (arrangements st))"
  by (force simp: activeArrangement_def find_None_iff)

text \<open>
  When the active arrangement is found, the fork is appended to the collection, which is
  otherwise as before, and its id becomes the active id. The id is \<open>arr-\<close> followed
  by the clock reading: two forks have the same id exactly when they read the same
  clock value. The parent id is the id of the source, the container has the id
  \<open>cont-\<close> followed by the second clock reading, the label of the source with
  \<open>.1\<close> appended, the placeholder hypothesis and the rules of the source, and the
  services are those of the source.
\<close>

lemma fork_derives_arrangement:
  assumes "activeArrangement st = Some src"
  shows "handleFork st now1 now2 now3 =
           Inr (st \<lparr> arrangements := arrangements st @ [fork src now1 now2 now3],
                     activeArrangementId := id_arr (fork src now1 now2 now3) \<rparr>)
     \<and> id_arr (fork src now1 now2 now3) = ''arr-'' @ toString_nat now1
     \<and> (id_arr (fork src now1 now2 now3) = id_arr (fork src' t1 t2 t3) \<longleftrightarrow> now1 = t1)
     \<and> parentId (fork src now1 now2 now3) = Some (id_arr src)
     \<and> id_cont (container (fork src now1 now2 now3)) = ''cont-'' @ toString_nat now2
     \<and> versionLabel (container (fork src now1 now2 now3)) = versionLabel (container src) @ ''.1''
     \<and> hypothesis (container (fork src now1 now2 now3))
         = ''Exploratory fork to test new boundary conditions.''
     \<and> activeRules (container (fork src now1 now2 now3)) = activeRules (container src)
     \<and> services (fork src now1 now2 now3) = services src"
proof -
  have "id_arr (fork src now1 now2 now3) = id_arr (fork src' t1 t2 t3) \<longleftrightarrow> now1 = t1"
    by (simp add: fork_fields toString_nat_inj)
  then show ?thesis
    using handleFork_Some [OF assms] by (simp add: fork_fields)
qed

section \<open>Isolation of a fork from its source\<close>

lemma find_map_ids:
  assumes "\<And>x. id_arr (f x) = id_arr x"
  shows "find (\<lambda>a. id_arr a = t) (map f xs) = map_option f (find (\<lambda>a. id_arr a = t) xs)"
  by (induction xs) (simp_all add: assms)

lemma find_append_Some: "find P xs = Some x \<Longrightarrow> find P (xs @ ys) = Some x"
  by (induction xs) (auto split: if_splits)

lemma activeArrangement_id: "activeArrangement st = Some src \<Longrightarrow> id_arr src = activeArrangementId st"
  by (auto simp: activeArrangement_def find_Some_iff)

lemma arrangements_cycle:
  "arrangements (handleCycleStatus st sid) = map (cycleIn (activeArrangementId st) sid) (arrangements st)"
  by (simp add: handleCycleStatus_def)

lemma arrangements_hypothesis:
  "arrangements (handleUpdateHypothesis st text)
     = map (hypothesisIn (activeArrangementId st) text) (arrangements st)"
  by (simp add: handleUpdateHypothesis_def)

lemma id_arr_cycleIn: "id_arr (cycleIn active sid a) = id_arr a"
  by (simp add: cycleIn_def)

lemma id_arr_hypothesisIn: "id_arr (hypothesisIn active text a) = id_arr a"
  by (simp add: hypothesisIn_def)

lemma lookup_after_cycle:
  assumes "find (\<lambda>a. id_arr a = t) xs = Some src"
  shows "find (\<lambda>a. id_arr a = t) (map (cycleIn active sid) xs) = Some (cycleIn active sid src)"
  by (simp add: find_map_ids [OF id_arr_cycleIn] assms)

lemma lookup_after_hypothesis:
  assumes "find (\<lambda>a. id_arr a = t) xs = Some src"
  shows "find (\<lambda>a. id_arr a = t) (map (hypothesisIn active text) xs)
           = Some (hypothesisIn active text src)"
  by (simp add: find_map_ids [OF id_arr_hypothesisIn] assms)

text \<open>
  When the id derived from the clock differs from the id of the source, the fork holds
  the services of the source and its container with a new id, label and hypothesis;
  cycling a service of the fork changes the fork and leaves the source, looked up by
  its id, as it was, and so does editing the hypothesis of the fork; cycling a service
  of the source changes the source and leaves the fork as it was. The spread copies one
  level: the arrays of metrics and of rules are the same objects in source and fork; no
  handler writes into them, so no state of the component tells them from copies.
\<close>

lemma fork_isolation:
  assumes src: "activeArrangement st = Some src"
    and neq: "id_arr src \<noteq> ''arr-'' @ toString_nat now1"
    and fk: "handleFork st now1 now2 now3 = Inr st'"
  shows "last (arrangements st') = fork src now1 now2 now3
     \<and> services (last (arrangements st')) = services src
     \<and> container (last (arrangements st')) =
         (container src) \<lparr> id_cont := ''cont-'' @ toString_nat now2,
                           versionLabel := versionLabel (container src) @ ''.1'',
                           hypothesis := ''Exploratory fork to test new boundary conditions.'' \<rparr>
     \<and> services (last (arrangements (handleCycleStatus st' serviceId)))
         = map (cycleService serviceId) (services src)
     \<and> activeArrangement ((handleCycleStatus st' serviceId) \<lparr> activeArrangementId := id_arr src \<rparr>)
         = Some src
     \<and> activeArrangement ((handleUpdateHypothesis st' text) \<lparr> activeArrangementId := id_arr src \<rparr>)
         = Some src
     \<and> activeArrangement (handleCycleStatus (st' \<lparr> activeArrangementId := id_arr src \<rparr>) serviceId)
         = Some (src \<lparr> services := map (cycleService serviceId) (services src) \<rparr>)
     \<and> last (arrangements (handleCycleStatus (st' \<lparr> activeArrangementId := id_arr src \<rparr>) serviceId))
         = last (arrangements st')"
proof -
  let ?f = "fork src now1 now2 now3"
  from fk handleFork_Some [OF src, of now1 now2 now3]
  have st': "st' = st \<lparr> arrangements := arrangements st @ [?f],
                        activeArrangementId := ''arr-'' @ toString_nat now1 \<rparr>"
    by simp
  have a: "last (arrangements st') = ?f"
    by (simp add: st')
  have fid: "id_arr (last (arrangements st')) = activeArrangementId st'"
    by (simp add: st' fork_fields)
  have neq': "id_arr src \<noteq> activeArrangementId st'"
    using neq by (simp add: st')
  have nonempty: "arrangements st' \<noteq> []"
    by (simp add: st')
  have found: "find (\<lambda>a. id_arr a = id_arr src) (arrangements st') = Some src"
    using src activeArrangement_id [OF src]
    by (simp add: st' activeArrangement_def find_append_Some)
  have b: "services (last (arrangements st')) = services src"
    by (simp add: a fork_fields)
  have c: "container (last (arrangements st')) =
         (container src) \<lparr> id_cont := ''cont-'' @ toString_nat now2,
                           versionLabel := versionLabel (container src) @ ''.1'',
                           hypothesis := ''Exploratory fork to test new boundary conditions.'' \<rparr>"
    by (simp add: a fork_fields)
  have d: "services (last (arrangements (handleCycleStatus st' serviceId)))
         = map (cycleService serviceId) (services src)"
    using nonempty fid b by (simp add: arrangements_cycle last_map cycleIn_def)
  have e: "activeArrangement ((handleCycleStatus st' serviceId) \<lparr> activeArrangementId := id_arr src \<rparr>)
         = Some src"
  proof -
    have "cycleIn (activeArrangementId st') serviceId src = src"
      using neq' by (simp add: cycleIn_def)
    with lookup_after_cycle [OF found, of "activeArrangementId st'" serviceId] show ?thesis
      by (simp add: activeArrangement_def arrangements_cycle)
  qed
  have f: "activeArrangement ((handleUpdateHypothesis st' text) \<lparr> activeArrangementId := id_arr src \<rparr>)
         = Some src"
  proof -
    have "hypothesisIn (activeArrangementId st') text src = src"
      using neq' by (simp add: hypothesisIn_def)
    with lookup_after_hypothesis [OF found, of "activeArrangementId st'" "text"] show ?thesis
      by (simp add: activeArrangement_def arrangements_hypothesis)
  qed
  have g: "activeArrangement (handleCycleStatus (st' \<lparr> activeArrangementId := id_arr src \<rparr>) serviceId)
         = Some (src \<lparr> services := map (cycleService serviceId) (services src) \<rparr>)"
  proof -
    have "cycleIn (id_arr src) serviceId src
        = src \<lparr> services := map (cycleService serviceId) (services src) \<rparr>"
      by (simp add: cycleIn_def)
    with lookup_after_cycle [OF found, of "id_arr src" serviceId] show ?thesis
      by (simp add: activeArrangement_def arrangements_cycle other_fields_handleCycleStatus)
  qed
  have h: "last (arrangements (handleCycleStatus (st' \<lparr> activeArrangementId := id_arr src \<rparr>) serviceId))
         = last (arrangements st')"
    using nonempty fid neq' by (simp add: arrangements_cycle last_map cycleIn_def)
  from a b c d e f g h show ?thesis by blast
qed

section \<open>An active id that matches no arrangement\<close>

text \<open>
  C8, as the code has it. When no arrangement carries the active id, toggling a service,
  updating the hypothesis and cycling a status return the state they were given, and
  forking throws a TypeError and sets no state.
\<close>

theorem stale_id_noop_or_TypeError:
  assumes "activeArrangementId st \<notin> set (map id_arr (arrangements st))"
  shows "handleToggleService_with catalog st serviceId = st
     \<and> handleUpdateHypothesis st text = st
     \<and> handleCycleStatus st serviceId = st
     \<and> handleFork st now1 now2 now3 = Inl TypeError"
proof -
  from assms have other: "id_arr a \<noteq> activeArrangementId st" if "a \<in> set (arrangements st)" for a
    using that by force
  have "map (toggleIn catalog (activeArrangementId st) serviceId) (arrangements st) = arrangements st"
    by (rule map_idI) (simp add: other toggleIn_def)
  moreover have "\<not> list_ex (\<lambda>arr. id_arr arr = activeArrangementId st
                              \<and> find (\<lambda>s. id_svc s = serviceId) (services arr) \<noteq> None)
                        (arrangements st)"
    using other by (auto simp: list_ex_iff)
  ultimately have "handleToggleService_with catalog st serviceId = st"
    by (simp add: handleToggleService_with_def)
  moreover have "handleUpdateHypothesis st text = st"
  proof -
    have "map (hypothesisIn (activeArrangementId st) text) (arrangements st) = arrangements st"
      by (rule map_idI) (simp add: other hypothesisIn_def)
    then show ?thesis by (simp add: handleUpdateHypothesis_def)
  qed
  moreover have "handleCycleStatus st serviceId = st"
  proof -
    have "map (cycleIn (activeArrangementId st) serviceId) (arrangements st) = arrangements st"
      by (rule map_idI) (simp add: other cycleIn_def)
    then show ?thesis by (simp add: handleCycleStatus_def)
  qed
  moreover have "handleFork st now1 now2 now3 = Inl TypeError"
    using assms by (simp add: handleFork_None activeArrangement_None_iff)
  ultimately show ?thesis by blast
qed

theorem stale_id_noop_or_TypeError_witness:
  "activeArrangementId stale_state \<notin> set (map id_arr (arrangements stale_state))
   \<and> handleToggleService stale_state ''svc-onprem-db'' = stale_state
   \<and> handleUpdateHypothesis stale_state ''Keep the tape library.'' = stale_state
   \<and> handleCycleStatus stale_state ''svc-onprem-db'' = stale_state
   \<and> handleFork stale_state 41 41 41 = Inl TypeError"
proof -
  have h: "activeArrangementId stale_state \<notin> set (map id_arr (arrangements stale_state))"
    by code_simp
  from stale_id_noop_or_TypeError [OF h, where catalog = MOCK_SERVICES] h
  show ?thesis unfolding handleToggleService_def by blast
qed

text \<open>Forking with a stale active id is not a silent no-op: it fails.\<close>

theorem fork_stale_id_TypeError:
  "activeArrangementId stale_state \<notin> set (map id_arr (arrangements stale_state))
   \<and> handleFork stale_state 41 41 41 = Inl TypeError
   \<and> handleFork stale_state 41 41 41 \<noteq> Inr stale_state"
  by code_simp

section \<open>Comparison of two arrangements\<close>

lemma getServiceDiff_Some:
  "getServiceDiff a (Some b) =
     \<lparr> uniqueA = filter (\<lambda>s. id_svc s \<notin> set (map id_svc (services b))) (services a),
       uniqueB = filter (\<lambda>s. id_svc s \<notin> set (map id_svc (services a))) (services b),
       common = filter (\<lambda>s. id_svc s \<in> set (map id_svc (services b))) (services a) \<rparr>"
  by (simp add: getServiceDiff_def Let_def)

text \<open>
  C9, as the code has it. With a second arrangement chosen, the three lists split the
  services by id: those of A whose id B lacks, those of B whose id A lacks, and those of
  A whose id B has; their id sets are pairwise disjoint. With no second arrangement
  chosen the three lists are empty and so is the list of evaluated rules of B, while
  the rules of A are evaluated as always.
\<close>

theorem compare_partition:
  "set (map id_svc (uniqueA (getServiceDiff a (Some b))))
       = set (map id_svc (services a)) - set (map id_svc (services b))
   \<and> set (map id_svc (uniqueB (getServiceDiff a (Some b))))
       = set (map id_svc (services b)) - set (map id_svc (services a))
   \<and> set (map id_svc (common (getServiceDiff a (Some b))))
       = set (map id_svc (services a)) \<inter> set (map id_svc (services b))
   \<and> uniqueA (getServiceDiff a (Some b))
       = filter (\<lambda>s. id_svc s \<notin> set (map id_svc (services b))) (services a)
   \<and> uniqueB (getServiceDiff a (Some b))
       = filter (\<lambda>s. id_svc s \<notin> set (map id_svc (services a))) (services b)
   \<and> common (getServiceDiff a (Some b))
       = filter (\<lambda>s. id_svc s \<in> set (map id_svc (services b))) (services a)
   \<and> set (map id_svc (uniqueA (getServiceDiff a (Some b))))
       \<inter> set (map id_svc (uniqueB (getServiceDiff a (Some b)))) = {}
   \<and> set (map id_svc (uniqueA (getServiceDiff a (Some b))))
       \<inter> set (map id_svc (common (getServiceDiff a (Some b)))) = {}
   \<and> set (map id_svc (uniqueB (getServiceDiff a (Some b))))
       \<inter> set (map id_svc (common (getServiceDiff a (Some b)))) = {}
   \<and> set (uniqueA (getServiceDiff a (Some b))) \<union> set (common (getServiceDiff a (Some b)))
       = set (services a)
   \<and> getServiceDiff a None = \<lparr> uniqueA = [], uniqueB = [], common = [] \<rparr>
   \<and> rulesB None = []
   \<and> rulesA a = map (\<lambda>r. evaluateRule r (services a)) (activeRules (container a))
   \<and> ComparisonView a None
       = (\<lparr> uniqueA = [], uniqueB = [], common = [] \<rparr>, getEvaluatedRules a, [])"
proof -
  let ?d = "getServiceDiff a (Some b)"
  let ?A = "set (map id_svc (services a))"
  let ?B = "set (map id_svc (services b))"
  have uA: "uniqueA ?d = filter (\<lambda>s. id_svc s \<notin> ?B) (services a)"
    and uB: "uniqueB ?d = filter (\<lambda>s. id_svc s \<notin> ?A) (services b)"
    and co: "common ?d = filter (\<lambda>s. id_svc s \<in> ?B) (services a)"
    by (simp_all add: getServiceDiff_Some)
  have sA: "set (map id_svc (uniqueA ?d)) = ?A - ?B"
    unfolding uA by auto
  have sB: "set (map id_svc (uniqueB ?d)) = ?B - ?A"
    unfolding uB by auto
  have sC: "set (map id_svc (common ?d)) = ?A \<inter> ?B"
    unfolding co by auto
  have d1: "set (map id_svc (uniqueA ?d)) \<inter> set (map id_svc (uniqueB ?d)) = {}"
    unfolding sA sB by blast
  have d2: "set (map id_svc (uniqueA ?d)) \<inter> set (map id_svc (common ?d)) = {}"
    unfolding sA sC by blast
  have d3: "set (map id_svc (uniqueB ?d)) \<inter> set (map id_svc (common ?d)) = {}"
    unfolding sB sC by blast
  have cv: "set (uniqueA ?d) \<union> set (common ?d) = set (services a)"
    unfolding uA co by auto
  have n1: "getServiceDiff a None = \<lparr> uniqueA = [], uniqueB = [], common = [] \<rparr>"
    by (simp add: getServiceDiff_def)
  have n2: "rulesB None = []"
    by (simp add: rulesB_def)
  have n3: "rulesA a = map (\<lambda>r. evaluateRule r (services a)) (activeRules (container a))"
    by (simp add: rulesA_def)
  have n4: "ComparisonView a None
       = (\<lparr> uniqueA = [], uniqueB = [], common = [] \<rparr>, getEvaluatedRules a, [])"
    by (simp add: ComparisonView_def n1 n2 n3 getEvaluatedRules_def)
  from uA uB co sA sB sC d1 d2 d3 cv n1 n2 n3 n4 show ?thesis by blast
qed

text \<open>
  The legacy arrangement against its fork with the cloud backup toggled in; and against
  nothing.
\<close>

theorem compare_partition_witness:
  "map id_svc (uniqueA (getServiceDiff (arrangements once_forked ! 0)
        (Some (arrangements (handleToggleService once_forked ''cloud_backup_DR'') ! 2))))
     = []
   \<and> map id_svc (uniqueB (getServiceDiff (arrangements once_forked ! 0)
        (Some (arrangements (handleToggleService once_forked ''cloud_backup_DR'') ! 2))))
     = [''cloud_backup_DR'']
   \<and> common (getServiceDiff (arrangements once_forked ! 0)
        (Some (arrangements (handleToggleService once_forked ''cloud_backup_DR'') ! 2)))
     = services (arrangements once_forked ! 0)
   \<and> map status (fst (snd (ComparisonView (arrangements once_forked ! 0) None)))
     = [NOT_EVALUABLE, SATISFIED, SATISFIED, VIOLATED]
   \<and> snd (snd (ComparisonView (arrangements once_forked ! 0) None)) = []"
proof -
  let ?a = "arrangements once_forked ! 0"
  let ?b = "arrangements (handleToggleService once_forked ''cloud_backup_DR'') ! 2"
  note inst = compare_partition [of ?a ?b]
  have "map id_svc (filter (\<lambda>s. id_svc s \<notin> set (map id_svc (services ?b))) (services ?a)) = []"
    by code_simp
  with inst have r1: "map id_svc (uniqueA (getServiceDiff ?a (Some ?b))) = []"
    by (simp only:)
  have "map id_svc (filter (\<lambda>s. id_svc s \<notin> set (map id_svc (services ?a))) (services ?b))
      = [''cloud_backup_DR'']"
    by code_simp
  with inst have r2: "map id_svc (uniqueB (getServiceDiff ?a (Some ?b))) = [''cloud_backup_DR'']"
    by (simp only:)
  have "filter (\<lambda>s. id_svc s \<in> set (map id_svc (services ?b))) (services ?a) = services ?a"
    by code_simp
  with inst have r3: "common (getServiceDiff ?a (Some ?b)) = services ?a"
    by (simp only:)
  have "map status (getEvaluatedRules ?a) = [NOT_EVALUABLE, SATISFIED, SATISFIED, VIOLATED]"
    by code_simp
  with inst have r4: "map status (fst (snd (ComparisonView ?a None)))
     = [NOT_EVALUABLE, SATISFIED, SATISFIED, VIOLATED]"
    by simp
  from inst have r5: "snd (snd (ComparisonView ?a None)) = []"
    by simp
  from r1 r2 r3 r4 r5 show ?thesis by blast
qed

text \<open>With no second arrangement chosen the list of evaluated rules of A is not empty.\<close>

theorem compare_unset_B_keeps_rulesA:
  "getServiceDiff (INITIAL_ARRANGEMENTS 0 0 ! 0) None = \<lparr> uniqueA = [], uniqueB = [], common = [] \<rparr>
   \<and> map id_rule (fst (snd (ComparisonView (INITIAL_ARRANGEMENTS 0 0 ! 0) None)))
       = [''r_cost'', ''r_dr'', ''r_comp'', ''r_valid'']
   \<and> fst (snd (ComparisonView (INITIAL_ARRANGEMENTS 0 0 ! 0) None)) \<noteq> []"
  by code_simp

section \<open>Two forks within one reading of the clock\<close>

text \<open>
  \<^verbatim>\<open>handleFork\<close> builds the id of a fork from the reading of the clock alone,
  \<^verbatim>\<open>arr-${Date.now()}\<close>, and compares it with nothing. The seed state is forked at the
  reading 41 and the result is forked again before the clock moves on.

  C7. A fork is to get an id that no arrangement of the collection has, and to become
  the active arrangement. The second fork gets the id of the first: the collection
  holds two arrangements with the id \<open>arr-41\<close>, the active arrangement, the first one
  with the active id, is the older of the two and not the new fork, and the new fork
  names itself as its parent.
\<close>

theorem fork_id_collision:
  "handleFork (initialState 0 0) 41 41 41 = Inr once_forked
   \<and> handleFork once_forked 41 41 41 = Inr twice_forked
   \<and> map id_arr (arrangements once_forked) = [''arr-legacy'', ''arr-cloud'', ''arr-41'']
   \<and> map id_arr (arrangements twice_forked)
       = [''arr-legacy'', ''arr-cloud'', ''arr-41'', ''arr-41'']
   \<and> id_arr (last (arrangements twice_forked)) \<in> set (map id_arr (arrangements once_forked))
   \<and> activeArrangementId twice_forked = ''arr-41''
   \<and> activeArrangement twice_forked = Some (arrangements twice_forked ! 2)
   \<and> arrangements twice_forked ! 2 \<noteq> arrangements twice_forked ! 3
   \<and> parentId (arrangements twice_forked ! 3) = Some (id_arr (arrangements twice_forked ! 3))"
  by code_simp

text \<open>
  C4. A fork and its source are to share no state: cycling the status of a service in
  the one leaves the other as it was. The arrangement at index 3 is the fork of the
  arrangement at index 2 and carries its id; cycling the database of the fork, which is
  the active id, moves the database of the source from VALIDATED to CONFLICT as well.
  The comment of \<^verbatim>\<open>handleFork\<close> says the services are cloned to allow independent
  status modification.
\<close>

theorem fork_same_tick_shares_status:
  "handleFork once_forked 41 41 41 = Inr twice_forked
   \<and> activeArrangement once_forked = Some (arrangements twice_forked ! 2)
   \<and> arrangements twice_forked ! 3 = fork (arrangements twice_forked ! 2) 41 41 41
   \<and> activeArrangementId twice_forked = id_arr (arrangements twice_forked ! 3)
   \<and> map evaluationStatus (services (arrangements twice_forked ! 2))
       = [VALIDATED, VALIDATED, VALIDATED]
   \<and> map evaluationStatus (services (arrangements
         (handleCycleStatus twice_forked ''svc-onprem-db'') ! 3))
       = [CONFLICT, VALIDATED, VALIDATED]
   \<and> map evaluationStatus (services (arrangements
         (handleCycleStatus twice_forked ''svc-onprem-db'') ! 2))
       = [CONFLICT, VALIDATED, VALIDATED]"
  by code_simp

text \<open>
  C5. Cycling is to affect exactly one service in exactly one arrangement. After the two
  forks one call of \<^verbatim>\<open>handleCycleStatus\<close> moves the database from VALIDATED to CONFLICT
  in both arrangements with the id \<open>arr-41\<close>: two services in two arrangements.
\<close>

theorem cycle_same_id_changes_two:
  "handleFork once_forked 41 41 41 = Inr twice_forked
   \<and> map id_arr (arrangements twice_forked)
       = [''arr-legacy'', ''arr-cloud'', ''arr-41'', ''arr-41'']
   \<and> map (map evaluationStatus \<circ> services) (arrangements twice_forked)
       = [[VALIDATED, VALIDATED, VALIDATED], [VALIDATED, VALIDATED, VALIDATED, CONFLICT],
          [VALIDATED, VALIDATED, VALIDATED], [VALIDATED, VALIDATED, VALIDATED]]
   \<and> map (map evaluationStatus \<circ> services)
         (arrangements (handleCycleStatus twice_forked ''svc-onprem-db''))
       = [[VALIDATED, VALIDATED, VALIDATED], [VALIDATED, VALIDATED, VALIDATED, CONFLICT],
          [CONFLICT, VALIDATED, VALIDATED], [CONFLICT, VALIDATED, VALIDATED]]"
  by code_simp

text \<open>
  C6. Toggling a service in one arrangement is to leave every other arrangement of the
  collection as it is. After the two forks one call of \<^verbatim>\<open>handleToggleService\<close> removes
  the database from both arrangements with the id \<open>arr-41\<close>.
\<close>

theorem toggle_same_id_changes_two:
  "handleFork once_forked 41 41 41 = Inr twice_forked
   \<and> map id_arr (arrangements twice_forked)
       = [''arr-legacy'', ''arr-cloud'', ''arr-41'', ''arr-41'']
   \<and> map (map id_svc \<circ> services) (drop 2 (arrangements twice_forked))
       = [[''svc-onprem-db'', ''svc-onprem-backup'', ''svc-onprem-analytics''],
          [''svc-onprem-db'', ''svc-onprem-backup'', ''svc-onprem-analytics'']]
   \<and> map (map id_svc \<circ> services)
         (drop 2 (arrangements (handleToggleService twice_forked ''svc-onprem-db'')))
       = [[''svc-onprem-backup'', ''svc-onprem-analytics''],
          [''svc-onprem-backup'', ''svc-onprem-analytics'']]
   \<and> take 2 (arrangements (handleToggleService twice_forked ''svc-onprem-db''))
       = take 2 (arrangements twice_forked)"
  by code_simp

end
